theory Spec2Isabelle
  imports Main "HOL-Library.AList" "HOL-Library.Multiset"
begin

section \<open>Strings, lines and integers as the Python runtime treats them\<close>

text \<open>
  The program is \<^verbatim>\<open>cook_book.py\<close>: a recipe-file reader (\<^verbatim>\<open>read_cook_book\<close>), a
  shopping-list aggregator (\<^verbatim>\<open>get_shop_list_by_dishes\<close>) and a file merger
  (\<^verbatim>\<open>merge_files\<close>).

  A Python \<^verbatim>\<open>str\<close> is modelled as a \<^typ>\<open>string\<close> whose characters are the code points
  below 256; Python's \<^verbatim>\<open>int\<close> is \<^typ>\<open>int\<close>. A \<^verbatim>\<open>dict\<close> is an association list
  with distinct keys in insertion order: \<^const>\<open>map_of\<close> looks a key up and
  \<^const>\<open>AList.update\<close> stores a value (in place when the key is present, at the end
  otherwise), which is the order a Python dictionary keeps.
\<close>

definition NL :: char where
  "NL = CHR 0x0A"



text \<open>
  \<^verbatim>\<open>s.split(sep)\<close> for a non-empty separator: cut at the leftmost occurrences of
  \<open>sep\<close>, scanning from the left; \<open>cur\<close> is the field being collected.
\<close>

fun split_at :: "string \<Rightarrow> string \<Rightarrow> string \<Rightarrow> string list" where
  "split_at sep cur [] = [cur]"
| "split_at sep cur (c # cs) =
     (if sep \<noteq> [] \<and> take (length sep) (c # cs) = sep
      then cur # split_at sep [] (drop (length sep - 1) cs)
      else split_at sep (cur @ [c]) cs)"






text \<open>
  \<^verbatim>\<open>str(n)\<close> for a length: the decimal digits of a natural number.
\<close>

fun str_nat :: "nat \<Rightarrow> string" where
  "str_nat n =
     (if n < 10 then [''0123456789'' ! n]
      else str_nat (n div 10) @ [''0123456789'' ! (n mod 10)])"

text \<open>
  The lines of a text file as \<^verbatim>\<open>readline\<close> and \<^verbatim>\<open>readlines\<close> deliver them: each line
  keeps its line feed, the last one may lack it. The content is the decoded text after the
  runtime's newline translation.
\<close>

fun file_lines :: "string \<Rightarrow> string list" where
  "file_lines [] = []"
| "file_lines (c # cs) =
     (if c = NL then [c] # file_lines cs
      else (case file_lines cs of [] \<Rightarrow> [c] # [] | l # ls \<Rightarrow> (c # l) # ls))"


section \<open>Errors and the operating system\<close>

text \<open>
  The messages are Russian text with interpolated values; a message is modelled by its
  template and the values interpolated into it, an exception by its class and message.
  \<open>OSText\<close> is the text of an exception raised by the runtime itself.
\<close>

datatype message =
    BadIngredientCount string
  | NotEnoughIngredients string
  | BadIngredientFormat string string
  | BadQuantity string string
  | FileNotFound string
  | ReadFailed string message
  | DirNotFound string
  | MergeFailed message
  | OSText string

datatype py_error = FileNotFoundError message | ValueError message


text \<open>
  What a call into the operating system can answer: \<open>ENOENT\<close> is the failure Python
  raises as \<^verbatim>\<open>FileNotFoundError\<close>, \<open>OtherError\<close> any other exception, with its text.
  \<open>os_read\<close> opens a file for reading and delivers its content, \<open>os_write\<close> opens a
  file for writing and writes a text to it.
\<close>

datatype os_error = ENOENT | OtherError string

record os_env =
  os_listdir :: "string \<Rightarrow> os_error + string list"
  os_isfile :: "string \<Rightarrow> bool"
  os_read :: "string \<Rightarrow> os_error + string"
  os_write :: "string \<Rightarrow> string \<Rightarrow> os_error option"

section \<open>The recipe reader\<close>

record ingredient =
  ingredient_name :: string
  quantity :: int
  measure' :: string

type_synonym cook_book = "(string \<times> ingredient list) list"












section \<open>The shopping list\<close>

record shop_entry =
  entry_measure :: string
  entry_quantity :: int

type_synonym shop_list = "(string \<times> shop_entry) list"

text \<open>What line 64 prints.\<close>

datatype diagnostic = DishNotFound string

text \<open>Lines 67-73: one ingredient of a dish goes into the shopping list.\<close>

definition add_ingredient :: "int \<Rightarrow> shop_list \<Rightarrow> ingredient \<Rightarrow> shop_list" where
  "add_ingredient person_count shop_list ingredient =
     (let name = ingredient_name ingredient;
          q = quantity ingredient * person_count;
          m = measure' ingredient
      in case map_of shop_list name of
           Some e \<Rightarrow> AList.update name (e\<lparr>entry_quantity := entry_quantity e + q\<rparr>) shop_list
         | None \<Rightarrow> AList.update name \<lparr>entry_measure = m, entry_quantity = q\<rparr> shop_list)"

text \<open>Lines 62-73: the loop over the requested dishes; the state is what was printed and
  the shopping list.\<close>

fun shop_loop ::
  "string list \<Rightarrow> int \<Rightarrow> cook_book \<Rightarrow> diagnostic list \<times> shop_list \<Rightarrow> diagnostic list \<times> shop_list"
where
  "shop_loop [] person_count cook_book st = st"
| "shop_loop (dish # dishes) person_count cook_book st =
     (case map_of cook_book dish of
        None \<Rightarrow> shop_loop dishes person_count cook_book (fst st @ [DishNotFound dish], snd st)
      | Some ingredients \<Rightarrow>
          shop_loop dishes person_count cook_book
            (fst st, foldl (add_ingredient person_count) (snd st) ingredients))"

definition get_shop_list_by_dishes ::
  "string list \<Rightarrow> int \<Rightarrow> cook_book \<Rightarrow> diagnostic list \<times> shop_list"
where
  "get_shop_list_by_dishes dishes person_count cook_book =
     shop_loop dishes person_count cook_book ([], [])"

text \<open>
  The sum the data model asks for: over the requested dishes that the catalog has, the
  quantities of the ingredients of that name, each times the number of persons.
\<close>

definition recipe_total :: "string \<Rightarrow> int \<Rightarrow> ingredient list \<Rightarrow> int" where
  "recipe_total n person_count ingredients =
     sum_list (map (\<lambda>i. quantity i * person_count)
       (filter (\<lambda>i. ingredient_name i = n) ingredients))"

definition requested_total :: "cook_book \<Rightarrow> string list \<Rightarrow> int \<Rightarrow> string \<Rightarrow> int" where
  "requested_total cook_book dishes person_count n =
     sum_list (map (\<lambda>d. case map_of cook_book d of
                          None \<Rightarrow> 0
                        | Some ingredients \<Rightarrow> recipe_total n person_count ingredients) dishes)"

text \<open>The ingredients the loop meets, in its order: those of each requested dish that the
  catalog has.\<close>

definition requested_ingredients :: "cook_book \<Rightarrow> string list \<Rightarrow> ingredient list" where
  "requested_ingredients cook_book dishes =
     concat (map (\<lambda>d. case map_of cook_book d of
                         None \<Rightarrow> []
                       | Some ingredients \<Rightarrow> ingredients) dishes)"

subsection \<open>The same loop on a store of dictionaries\<close>

text \<open>
  In Python the ingredients and the entries of the shopping list are dictionaries, shared
  by reference. Here the store is the list of all dictionaries, an address is an index into
  it, the catalog holds the addresses of its ingredients and the shopping list the addresses
  of its entries. A new dictionary is put at the end of the store; \<^verbatim>\<open>+=\<close> on an entry
  changes the dictionary at its address. \<open>None\<close> is a run that raises (a missing key) or
  leaves the integers (a name or quantity of another type).
\<close>

datatype pyval = VStr string | VInt int

type_synonym pydict = "(string \<times> pyval) list"
type_synonym store = "pydict list"
type_synonym cook_book_refs = "(string \<times> nat list) list"
type_synonym shop_refs = "(string \<times> nat) list"

definition add_ingredient_h ::
  "int \<Rightarrow> shop_refs \<times> store \<Rightarrow> nat \<Rightarrow> (shop_refs \<times> store) option"
where
  "add_ingredient_h person_count st a =
     (let shop_list = fst st; h = snd st in
      if length h \<le> a then None
      else
        (case map_of (h ! a) ''ingredient_name'' of
           Some (VStr name) \<Rightarrow>
             (case map_of (h ! a) ''quantity'' of
                Some (VInt q0) \<Rightarrow>
                  (case map_of (h ! a) ''measure'' of
                     Some m \<Rightarrow>
                       (case map_of shop_list name of
                          Some e \<Rightarrow>
                            if length h \<le> e then None
                            else
                              (case map_of (h ! e) ''quantity'' of
                                 Some (VInt t) \<Rightarrow>
                                   Some (shop_list,
                                     h[e := AList.update ''quantity''
                                              (VInt (t + q0 * person_count)) (h ! e)])
                               | _ \<Rightarrow> None)
                        | None \<Rightarrow>
                            Some (AList.update name (length h) shop_list,
                              h @ [ [(''measure'', m),
                                    (''quantity'', VInt (q0 * person_count))]]))
                   | None \<Rightarrow> None)
              | _ \<Rightarrow> None)
         | _ \<Rightarrow> None))"

fun add_all_h :: "int \<Rightarrow> nat list \<Rightarrow> shop_refs \<times> store \<Rightarrow> (shop_refs \<times> store) option" where
  "add_all_h person_count [] st = Some st"
| "add_all_h person_count (a # as) st =
     (case add_ingredient_h person_count st a of
        None \<Rightarrow> None
      | Some st' \<Rightarrow> add_all_h person_count as st')"

fun shop_loop_h ::
  "string list \<Rightarrow> int \<Rightarrow> cook_book_refs \<Rightarrow> diagnostic list \<Rightarrow> shop_refs \<times> store \<Rightarrow>
     (diagnostic list \<times> shop_refs \<times> store) option"
where
  "shop_loop_h [] person_count cook_book out st = Some (out, st)"
| "shop_loop_h (dish # dishes) person_count cook_book out st =
     (case map_of cook_book dish of
        None \<Rightarrow> shop_loop_h dishes person_count cook_book (out @ [DishNotFound dish]) st
      | Some ingredients \<Rightarrow>
          (case add_all_h person_count ingredients st of
             None \<Rightarrow> None
           | Some st' \<Rightarrow> shop_loop_h dishes person_count cook_book out st'))"

definition get_shop_list_by_dishes_h ::
  "string list \<Rightarrow> int \<Rightarrow> cook_book_refs \<Rightarrow> store \<Rightarrow>
     (diagnostic list \<times> shop_refs \<times> store) option"
where
  "get_shop_list_by_dishes_h dishes person_count cook_book h =
     shop_loop_h dishes person_count cook_book [] ([], h)"

text \<open>What a dictionary of the store stands for, and a catalog whose addresses all hold
  ingredients as the reader builds them.\<close>

definition ingredient_of :: "pydict \<Rightarrow> ingredient option" where
  "ingredient_of d =
     (case (map_of d ''ingredient_name'', map_of d ''quantity'', map_of d ''measure'') of
        (Some (VStr n), Some (VInt q), Some (VStr m)) \<Rightarrow>
          Some \<lparr>ingredient_name = n, quantity = q, measure' = m\<rparr>
      | _ \<Rightarrow> None)"

definition entry_of :: "pydict \<Rightarrow> shop_entry option" where
  "entry_of d =
     (case (map_of d ''measure'', map_of d ''quantity'') of
        (Some (VStr m), Some (VInt q)) \<Rightarrow> Some \<lparr>entry_measure = m, entry_quantity = q\<rparr>
      | _ \<Rightarrow> None)"

definition wf_catalog :: "store \<Rightarrow> cook_book_refs \<Rightarrow> bool" where
  "wf_catalog h cb =
     list_all (\<lambda>r. list_all (\<lambda>a. a < length h \<and> ingredient_of (h ! a) \<noteq> None) (snd r)) cb"

definition catalog_of :: "store \<Rightarrow> cook_book_refs \<Rightarrow> cook_book" where
  "catalog_of h cb = map (\<lambda>r. (fst r, map (\<lambda>a. the (ingredient_of (h ! a))) (snd r))) cb"

definition shop_list_of :: "store \<Rightarrow> shop_refs \<Rightarrow> shop_list" where
  "shop_list_of h sl = map (\<lambda>r. (fst r, the (entry_of (h ! snd r)))) sl"

text \<open>
  The invariant of the loop on the store \<open>h0\<close> of the call: the store has only grown, the
  dictionaries of \<open>h0\<close> are as they were, and the entries of the shopping list are distinct
  dictionaries allocated after \<open>h0\<close>.
\<close>

definition entries_fresh :: "store \<Rightarrow> shop_refs \<times> store \<Rightarrow> bool" where
  "entries_fresh h0 st =
     (length h0 \<le> length (snd st) \<and> take (length h0) (snd st) = h0 \<and>
      distinct (map snd (fst st)) \<and>
      list_all (\<lambda>r. length h0 \<le> snd r \<and> snd r < length (snd st) \<and>
                     entry_of (snd st ! snd r) \<noteq> None) (fst st))"

section \<open>The file merger\<close>

text \<open>\<^verbatim>\<open>os.path.join\<close> of two components, on POSIX.\<close>

definition path_join :: "string \<Rightarrow> string \<Rightarrow> string" where
  "path_join a b =
     (if take 1 b = ''/'' then b
      else if a = [] \<or> last a = CHR ''/'' then a @ b
      else a @ ''/'' @ b)"

type_synonym files_info = "(string \<times> string list) list"

text \<open>Lines 86-92: read the regular files of the listing into the dictionary.\<close>

fun read_files :: "os_env \<Rightarrow> string \<Rightarrow> string list \<Rightarrow> files_info \<Rightarrow> os_error + files_info" where
  "read_files env directory [] files_info = Inr files_info"
| "read_files env directory (filename # rest) files_info =
     (if \<not> os_isfile env (path_join directory filename)
      then read_files env directory rest files_info
      else
        (case os_read env (path_join directory filename) of
           Inl e \<Rightarrow> Inl e
         | Inr content \<Rightarrow>
             read_files env directory rest
               (AList.update filename (file_lines content) files_info)))"

text \<open>Lines 98-100: what is written for one file.\<close>

definition write_block :: "string \<times> string list \<Rightarrow> string" where
  "write_block r = fst r @ [NL] @ str_nat (length (snd r)) @ [NL] @ concat (snd r)"

text \<open>Lines 101-104: the two handlers around the whole body.\<close>

definition merge_handler :: "string \<Rightarrow> os_error \<Rightarrow> py_error" where
  "merge_handler directory e =
     (case e of
        ENOENT \<Rightarrow> FileNotFoundError (DirNotFound directory)
      | OtherError t \<Rightarrow> ValueError (MergeFailed (OSText t)))"

text \<open>
  Lines 84-104. \<^verbatim>\<open>sorted\<close> with a key is a stable sort, as \<^const>\<open>sort_key\<close> is. The
  function returns nothing; the model returns the text it has written to the output file.
\<close>

definition merge_files :: "os_env \<Rightarrow> string \<Rightarrow> string \<Rightarrow> py_error + string" where
  "merge_files env directory output_file =
     (case os_listdir env directory of
        Inl e \<Rightarrow> Inl (merge_handler directory e)
      | Inr names \<Rightarrow>
          (case read_files env directory names [] of
             Inl e \<Rightarrow> Inl (merge_handler directory e)
           | Inr files_info \<Rightarrow>
               let sorted_files = sort_key (\<lambda>x. length (snd x)) files_info;
                   text = concat (map write_block sorted_files)
               in case os_write env output_file text of
                    Some e \<Rightarrow> Inl (merge_handler directory e)
                  | None \<Rightarrow> Inr text))"

text \<open>The records of a listing in its order: each regular file with its lines.\<close>

definition lines_of :: "os_env \<Rightarrow> string \<Rightarrow> string list" where
  "lines_of env p = (case os_read env p of Inl e \<Rightarrow> [] | Inr content \<Rightarrow> file_lines content)"

definition enumerated_records :: "os_env \<Rightarrow> string \<Rightarrow> string list \<Rightarrow> files_info" where
  "enumerated_records env directory names =
     map (\<lambda>n. (n, lines_of env (path_join directory n)))
       (filter (\<lambda>n. os_isfile env (path_join directory n)) names)"

text \<open>
  A file system whose only directory is \<open>dir\<close>, holding the given regular files (name and
  content) in this listing order. A file can be created directly inside \<open>dir\<close>; any other
  path has no existing parent directory, and opening it fails with \<open>ENOENT\<close>.
\<close>

definition dir_env :: "string \<Rightarrow> (string \<times> string) list \<Rightarrow> os_env" where
  "dir_env dir files =
     \<lparr>os_listdir = (\<lambda>d. if d = dir then Inr (map fst files) else Inl ENOENT),
      os_isfile = (\<lambda>p. map_of (map (\<lambda>r. (path_join dir (fst r), snd r)) files) p \<noteq> None),
      os_read = (\<lambda>p. case map_of (map (\<lambda>r. (path_join dir (fst r), snd r)) files) p of
                       None \<Rightarrow> Inl ENOENT
                     | Some content \<Rightarrow> Inr content),
      os_write = (\<lambda>p t. if take (length dir + 1) p = dir @ ''/'' \<and>
                            CHR ''/'' \<notin> set (drop (length dir + 1) p)
                         then None else Some ENOENT)\<rparr>"

section \<open>Properties of the aggregator\<close>

lemma shop_loop_flat:
  "shop_loop dishes pc cb st =
     (fst st @ map DishNotFound (filter (\<lambda>d. map_of cb d = None) dishes),
      foldl (add_ingredient pc) (snd st) (requested_ingredients cb dishes))"
  by (induction dishes arbitrary: st)
     (auto simp: requested_ingredients_def split: option.splits)

lemma map_of_add_ingredient:
  "map_of (add_ingredient pc sl i) =
     (map_of sl)(ingredient_name i \<mapsto>
        (case map_of sl (ingredient_name i) of
           Some e \<Rightarrow> e\<lparr>entry_quantity := entry_quantity e + quantity i * pc\<rparr>
         | None \<Rightarrow> \<lparr>entry_measure = measure' i, entry_quantity = quantity i * pc\<rparr>))"
  by (simp add: add_ingredient_def Let_def update_conv' split: option.splits)

lemma keys_add_ingredient:
  "distinct (map fst sl) \<Longrightarrow> distinct (map fst (add_ingredient pc sl i))"
  by (simp add: add_ingredient_def Let_def distinct_update split: option.splits)

lemma keys_foldl_add:
  "distinct (map fst sl) \<Longrightarrow> distinct (map fst (foldl (add_ingredient pc) sl xs))"
  by (induction xs arbitrary: sl) (simp_all add: keys_add_ingredient)

lemma map_of_foldl_add:
  "map_of (foldl (add_ingredient pc) sl xs) n =
     (case map_of sl n of
        Some e \<Rightarrow> Some (e\<lparr>entry_quantity := entry_quantity e + recipe_total n pc xs\<rparr>)
      | None \<Rightarrow>
          (case find (\<lambda>i. ingredient_name i = n) xs of
             None \<Rightarrow> None
           | Some i0 \<Rightarrow> Some \<lparr>entry_measure = measure' i0, entry_quantity = recipe_total n pc xs\<rparr>))"
proof (induction xs arbitrary: sl)
  case Nil
  then show ?case by (simp add: recipe_total_def split: option.splits)
next
  case (Cons x xs)
  show ?case
    by (simp add: Cons.IH map_of_add_ingredient recipe_total_def algebra_simps
        split: option.splits)
qed

lemma recipe_total_concat:
  "recipe_total n pc (concat xss) = sum_list (map (recipe_total n pc) xss)"
  by (induction xss) (simp_all add: recipe_total_def)

lemma requested_total_flat:
  "requested_total cb dishes pc n = recipe_total n pc (requested_ingredients cb dishes)"
  unfolding requested_total_def requested_ingredients_def recipe_total_concat
  by (induction dishes) (simp_all add: recipe_total_def split: option.splits)

lemma shop_list_lookup:
  "map_of (snd (get_shop_list_by_dishes dishes pc cb)) n =
     (case find (\<lambda>i. ingredient_name i = n) (requested_ingredients cb dishes) of
        None \<Rightarrow> None
      | Some i0 \<Rightarrow>
          Some \<lparr>entry_measure = measure' i0, entry_quantity = requested_total cb dishes pc n\<rparr>)"
  by (simp add: get_shop_list_by_dishes_def shop_loop_flat map_of_foldl_add requested_total_flat
      split: option.splits)

lemma shop_list_keys:
  "distinct (map fst (snd (get_shop_list_by_dishes dishes pc cb)))"
  by (simp add: get_shop_list_by_dishes_def shop_loop_flat keys_foldl_add)

text \<open>
  Claim C1. In the shopping list that the aggregator returns, each ingredient name has one
  entry, and the quantity of the entry is the sum, over the requested dishes that the catalog
  has, of the recipe's quantities for that name, each times \<open>person_count\<close>.
\<close>

theorem shop_list_sums:
  "distinct (map fst (snd (get_shop_list_by_dishes dishes pc cb))) \<and>
   (\<forall>n e. (n, e) \<in> set (snd (get_shop_list_by_dishes dishes pc cb)) \<longrightarrow>
      entry_quantity e = requested_total cb dishes pc n)"
proof (intro conjI allI impI)
  show d: "distinct (map fst (snd (get_shop_list_by_dishes dishes pc cb)))"
    by (rule shop_list_keys)
  fix n e
  assume "(n, e) \<in> set (snd (get_shop_list_by_dishes dishes pc cb))"
  with d have "map_of (snd (get_shop_list_by_dishes dishes pc cb)) n = Some e"
    by simp
  then show "entry_quantity e = requested_total cb dishes pc n"
    by (auto simp: shop_list_lookup split: option.splits)
qed

theorem shop_list_sums_witness:
  "(''salt'', \<lparr>entry_measure = ''g'', entry_quantity = 16\<rparr>) \<in>
     set (snd (get_shop_list_by_dishes [''A'', ''C'', ''B'', ''A''] 2
       [(''A'', [\<lparr>ingredient_name = ''salt'', quantity = 2, measure' = ''g''\<rparr>,
                 \<lparr>ingredient_name = ''egg'', quantity = 1, measure' = ''pc''\<rparr>]),
        (''B'', [\<lparr>ingredient_name = ''salt'', quantity = 4, measure' = ''kg''\<rparr>])])) \<and>
   requested_total
       [(''A'', [\<lparr>ingredient_name = ''salt'', quantity = 2, measure' = ''g''\<rparr>,
                 \<lparr>ingredient_name = ''egg'', quantity = 1, measure' = ''pc''\<rparr>]),
        (''B'', [\<lparr>ingredient_name = ''salt'', quantity = 4, measure' = ''kg''\<rparr>])]
       [''A'', ''C'', ''B'', ''A''] 2 ''salt'' = 16"
proof -
  let ?cb = "[(''A'', [\<lparr>ingredient_name = ''salt'', quantity = 2, measure' = ''g''\<rparr>,
                 \<lparr>ingredient_name = ''egg'', quantity = 1, measure' = ''pc''\<rparr>]),
        (''B'', [\<lparr>ingredient_name = ''salt'', quantity = 4, measure' = ''kg''\<rparr>])]"
  have m: "(''salt'', \<lparr>entry_measure = ''g'', entry_quantity = 16\<rparr>) \<in>
     set (snd (get_shop_list_by_dishes [''A'', ''C'', ''B'', ''A''] 2 ?cb))"
    by (simp add: get_shop_list_by_dishes_def add_ingredient_def)
  from shop_list_sums [of "[''A'', ''C'', ''B'', ''A'']" 2 ?cb] m
  have "entry_quantity \<lparr>entry_measure = ''g'', entry_quantity = 16\<rparr> =
      requested_total ?cb [''A'', ''C'', ''B'', ''A''] 2 ''salt''"
    by blast
  with m show ?thesis by simp
qed

text \<open>
  Claim C2. For the catalog with dish A holding 2 g of salt and dish B holding 3 g of salt,
  the dishes A and B and two persons give exactly the shopping list with the one entry
  salt: quantity 10, measure g.
\<close>

theorem two_dishes_share_salt:
  "snd (get_shop_list_by_dishes [''A'', ''B''] 2
     [(''A'', [\<lparr>ingredient_name = ''salt'', quantity = 2, measure' = ''g''\<rparr>]),
      (''B'', [\<lparr>ingredient_name = ''salt'', quantity = 3, measure' = ''g''\<rparr>])])
   = [(''salt'', \<lparr>entry_measure = ''g'', entry_quantity = 10\<rparr>)]"
  by (simp add: get_shop_list_by_dishes_def add_ingredient_def)

lemma shop_list_flat:
  "snd (get_shop_list_by_dishes dishes pc cb) =
     foldl (add_ingredient pc) [] (requested_ingredients cb dishes)"
  by (simp add: get_shop_list_by_dishes_def shop_loop_flat)

lemma diagnostics_flat:
  "fst (get_shop_list_by_dishes dishes pc cb) =
     map DishNotFound (filter (\<lambda>d. map_of cb d = None) dishes)"
  by (simp add: get_shop_list_by_dishes_def shop_loop_flat)

lemma requested_ingredients_present:
  "requested_ingredients cb (filter (\<lambda>x. map_of cb x \<noteq> None) dishes) =
     requested_ingredients cb dishes"
  by (induction dishes) (auto simp: requested_ingredients_def)

lemma requested_ingredients_member:
  "d \<in> set dishes \<Longrightarrow> map_of cb d = Some ings \<Longrightarrow> i \<in> set ings \<Longrightarrow>
     i \<in> set (requested_ingredients cb dishes)"
  by (force simp: requested_ingredients_def)

lemma find_named:
  "i \<in> set xs \<Longrightarrow> find (\<lambda>j. ingredient_name j = ingredient_name i) xs \<noteq> None"
  by (auto simp: find_None_iff)

lemma single_entry:
  "distinct (map fst sl) \<Longrightarrow> map_of sl n = Some e \<Longrightarrow> filter (\<lambda>r. fst r = n) sl = [(n, e)]"
proof (induction sl)
  case Nil
  then show ?case by simp
next
  case (Cons r sl)
  show ?case
  proof (cases "fst r = n")
    case True
    with Cons.prems have "r = (n, e)" by (cases r) simp
    moreover from True Cons.prems have "n \<notin> fst ` set sl"
      by simp
    then have "filter (\<lambda>r. fst r = n) sl = []"
      by (force simp: filter_empty_conv)
    ultimately show ?thesis by simp
  next
    case False
    with Cons show ?thesis by (cases r) auto
  qed
qed

text \<open>
  Claim C8. When the dish list holds a name that the catalog lacks, the aggregator prints
  the diagnostic for that name and returns its shopping list all the same (the function is
  total: no path of it raises); the list is the one the present dishes alone would give, and
  every ingredient of every requested dish that is present has its entry in it, with the
  summed scaled quantity.
\<close>

theorem missing_dish_is_skipped:
  assumes "d \<in> set dishes" and "map_of cb d = None"
  shows "DishNotFound d \<in> set (fst (get_shop_list_by_dishes dishes pc cb)) \<and>
    snd (get_shop_list_by_dishes dishes pc cb) =
      snd (get_shop_list_by_dishes (filter (\<lambda>x. map_of cb x \<noteq> None) dishes) pc cb) \<and>
    (\<forall>d' ings i. d' \<in> set dishes \<and> map_of cb d' = Some ings \<and> i \<in> set ings \<longrightarrow>
       (\<exists>e. map_of (snd (get_shop_list_by_dishes dishes pc cb)) (ingredient_name i) = Some e \<and>
            entry_quantity e = requested_total cb dishes pc (ingredient_name i)))"
proof (intro conjI allI impI)
  from assms show "DishNotFound d \<in> set (fst (get_shop_list_by_dishes dishes pc cb))"
    by (simp add: diagnostics_flat)
  show "snd (get_shop_list_by_dishes dishes pc cb) =
      snd (get_shop_list_by_dishes (filter (\<lambda>x. map_of cb x \<noteq> None) dishes) pc cb)"
    by (simp only: shop_list_flat requested_ingredients_present)
next
  fix d' ings i
  assume "d' \<in> set dishes \<and> map_of cb d' = Some ings \<and> i \<in> set ings"
  then have "i \<in> set (requested_ingredients cb dishes)"
    by (blast intro: requested_ingredients_member)
  then obtain i0 where
    "find (\<lambda>j. ingredient_name j = ingredient_name i) (requested_ingredients cb dishes) = Some i0"
    using find_named by blast
  then show "\<exists>e. map_of (snd (get_shop_list_by_dishes dishes pc cb)) (ingredient_name i) = Some e \<and>
      entry_quantity e = requested_total cb dishes pc (ingredient_name i)"
    by (simp add: shop_list_lookup)
qed

theorem missing_dish_is_skipped_witness:
  "DishNotFound ''C'' \<in> set (fst (get_shop_list_by_dishes [''A'', ''C'', ''B''] 2
       [(''A'', [\<lparr>ingredient_name = ''salt'', quantity = 2, measure' = ''g''\<rparr>]),
        (''B'', [\<lparr>ingredient_name = ''egg'', quantity = 3, measure' = ''pc''\<rparr>])])) \<and>
   snd (get_shop_list_by_dishes [''A'', ''C'', ''B''] 2
       [(''A'', [\<lparr>ingredient_name = ''salt'', quantity = 2, measure' = ''g''\<rparr>]),
        (''B'', [\<lparr>ingredient_name = ''egg'', quantity = 3, measure' = ''pc''\<rparr>])]) =
     [(''salt'', \<lparr>entry_measure = ''g'', entry_quantity = 4\<rparr>),
      (''egg'', \<lparr>entry_measure = ''pc'', entry_quantity = 6\<rparr>)]"
proof -
  let ?cb = "[(''A'', [\<lparr>ingredient_name = ''salt'', quantity = 2, measure' = ''g''\<rparr>]),
        (''B'', [\<lparr>ingredient_name = ''egg'', quantity = 3, measure' = ''pc''\<rparr>])]"
  have 1: "''C'' \<in> set [''A'', ''C'', ''B'']" by simp
  have 2: "map_of ?cb ''C'' = None" by simp
  have 3: "snd (get_shop_list_by_dishes (filter (\<lambda>x. map_of ?cb x \<noteq> None) [''A'', ''C'', ''B'']) 2 ?cb)
      = [(''salt'', \<lparr>entry_measure = ''g'', entry_quantity = 4\<rparr>),
         (''egg'', \<lparr>entry_measure = ''pc'', entry_quantity = 6\<rparr>)]"
    by (simp add: get_shop_list_by_dishes_def add_ingredient_def)
  from missing_dish_is_skipped [OF 1 2, of 2] 3 show ?thesis by simp
qed

text \<open>
  Claim C10. When a name occurs several times in the ingredient list of one dish, the
  occurrences are merged: the shopping list has exactly one entry for the name, its quantity
  is the sum of the scaled quantities of all the occurrences, its measure is that of the
  first occurrence, and the list is the one that the same ingredients, divided between two
  dishes, would give.
\<close>

theorem repeated_ingredient_in_one_dish:
  assumes "map_of cb d = Some ings" and "find (\<lambda>i. ingredient_name i = n) ings = Some i0"
  shows "map_of (snd (get_shop_list_by_dishes [d] pc cb)) n =
      Some \<lparr>entry_measure = measure' i0, entry_quantity = recipe_total n pc ings\<rparr> \<and>
    length (filter (\<lambda>r. fst r = n) (snd (get_shop_list_by_dishes [d] pc cb))) = 1 \<and>
    (\<forall>xs ys d1 d2. ings = xs @ ys \<and> d1 \<noteq> d2 \<longrightarrow>
       snd (get_shop_list_by_dishes [d] pc cb) =
       snd (get_shop_list_by_dishes [d1, d2] pc [(d1, xs), (d2, ys)]))"
proof (intro conjI allI impI)
  from assms have r: "requested_ingredients cb [d] = ings"
    by (simp add: requested_ingredients_def)
  from assms show m: "map_of (snd (get_shop_list_by_dishes [d] pc cb)) n =
      Some \<lparr>entry_measure = measure' i0, entry_quantity = recipe_total n pc ings\<rparr>"
    by (simp add: shop_list_lookup r requested_total_def)
  from single_entry [OF shop_list_keys m]
  show "length (filter (\<lambda>r. fst r = n) (snd (get_shop_list_by_dishes [d] pc cb))) = 1"
    by simp
  fix xs ys and d1 d2 :: string
  assume "ings = xs @ ys \<and> d1 \<noteq> d2"
  then have "requested_ingredients [(d1, xs), (d2, ys)] [d1, d2] = ings"
    by (auto simp: requested_ingredients_def)
  with r show "snd (get_shop_list_by_dishes [d] pc cb) =
       snd (get_shop_list_by_dishes [d1, d2] pc [(d1, xs), (d2, ys)])"
    by (simp only: shop_list_flat)
qed

theorem repeated_ingredient_in_one_dish_witness:
  "map_of (snd (get_shop_list_by_dishes [''A''] 2
      [(''A'', [\<lparr>ingredient_name = ''salt'', quantity = 2, measure' = ''g''\<rparr>,
                \<lparr>ingredient_name = ''egg'', quantity = 1, measure' = ''pc''\<rparr>,
                \<lparr>ingredient_name = ''salt'', quantity = 3, measure' = ''kg''\<rparr>])])) ''salt'' =
     Some \<lparr>entry_measure = ''g'', entry_quantity = 10\<rparr>"
proof -
  let ?ings = "[\<lparr>ingredient_name = ''salt'', quantity = 2, measure' = ''g''\<rparr>,
                \<lparr>ingredient_name = ''egg'', quantity = 1, measure' = ''pc''\<rparr>,
                \<lparr>ingredient_name = ''salt'', quantity = 3, measure' = ''kg''\<rparr>]"
  have 1: "map_of [(''A'', ?ings)] ''A'' = Some ?ings" by simp
  have 2: "find (\<lambda>i. ingredient_name i = ''salt'') ?ings =
      Some \<lparr>ingredient_name = ''salt'', quantity = 2, measure' = ''g''\<rparr>" by simp
  from repeated_ingredient_in_one_dish [OF 1 2, of 2] show ?thesis
    by (simp add: recipe_total_def)
qed

section \<open>Properties of the recipe reader\<close>




lemma split_at_nonempty: "split_at sep cur s \<noteq> []"
  by (induction sep cur s rule: split_at.induct) auto


























section \<open>Properties of the file merger\<close>

lemma update_fresh: "k \<notin> fst ` set al \<Longrightarrow> AList.update k v al = al @ [(k, v)]"
  by (induction al) auto

lemma read_files_enumerated:
  assumes "read_files env d names info = Inr info'"
    and "distinct names" and "set names \<inter> fst ` set info = {}"
  shows "info' = info @ enumerated_records env d names"
  using assms
proof (induction names arbitrary: info)
  case Nil
  then show ?case by (simp add: enumerated_records_def)
next
  case (Cons n names)
  show ?case
  proof (cases "os_isfile env (path_join d n)")
    case False
    with Cons.prems have "read_files env d names info = Inr info'" by simp
    from Cons.IH [OF this] Cons.prems False show ?thesis
      by (simp add: enumerated_records_def)
  next
    case True
    with Cons.prems obtain content where c: "os_read env (path_join d n) = Inr content"
      and r: "read_files env d names (AList.update n (file_lines content) info) = Inr info'"
      by (auto split: sum.splits)
    from Cons.prems have fresh: "n \<notin> fst ` set info" by auto
    then have u: "AList.update n (file_lines content) info = info @ [(n, file_lines content)]"
      by (rule update_fresh)
    from Cons.prems have "set names \<inter> fst ` set (info @ [(n, file_lines content)]) = {}"
      by auto
    from Cons.IH [OF r [unfolded u] _ this] Cons.prems True c show ?thesis
      by (simp add: enumerated_records_def lines_of_def)
  qed
qed

text \<open>
  Claim C7. When the merger succeeds on a directory whose listing is \<open>names\<close>, the text it
  writes to the output file is the concatenation of one block per regular file: the file
  name and a line feed, the number of its lines and a line feed, then its lines as they are.
  The blocks are in ascending order of line count, and files of equal line count keep the
  order of the listing.
\<close>

theorem merge_sorted_by_line_count:
  assumes "os_listdir env d = Inr names" and "distinct names"
    and "merge_files env d out = Inr text"
  shows "\<exists>recs.
      text = concat (map (\<lambda>r. fst r @ [NL] @ str_nat (length (snd r)) @ [NL] @ concat (snd r)) recs) \<and>
      sorted (map (\<lambda>r. length (snd r)) recs) \<and>
      mset recs = mset (enumerated_records env d names) \<and>
      (\<forall>k. filter (\<lambda>r. length (snd r) = k) recs =
           filter (\<lambda>r. length (snd r) = k) (enumerated_records env d names)) \<and>
      os_write env out text = None"
proof -
  from assms(1,3) obtain info where r: "read_files env d names [] = Inr info"
    and t: "text = concat (map write_block (sort_key (\<lambda>x. length (snd x)) info))"
    and w: "os_write env out text = None"
    by (auto simp: merge_files_def Let_def split: sum.splits option.splits)
  from read_files_enumerated [OF r assms(2)] have i: "info = enumerated_records env d names"
    by simp
  let ?recs = "sort_key (\<lambda>x. length (snd x)) (enumerated_records env d names)"
  have "text = concat (map (\<lambda>r. fst r @ [NL] @ str_nat (length (snd r)) @ [NL] @ concat (snd r)) ?recs)"
    unfolding t i by (simp add: write_block_def [abs_def])
  moreover have "sorted (map (\<lambda>r. length (snd r)) ?recs)"
    by (rule sorted_sort_key)
  moreover have "mset ?recs = mset (enumerated_records env d names)"
    by simp
  moreover have "\<forall>k. filter (\<lambda>r. length (snd r) = k) ?recs =
           filter (\<lambda>r. length (snd r) = k) (enumerated_records env d names)"
    by (simp add: sort_key_stable)
  ultimately show ?thesis using w by blast
qed

theorem merge_sorted_by_line_count_witness:
  "\<exists>recs.
      ''one.txt'' @ [NL] @ ''1'' @ [NL] @ ''only'' @ [NL] @
      ''three.txt'' @ [NL] @ ''3'' @ [NL] @ ''x'' @ [NL] @ ''y'' @ [NL] @ ''z'' @ [NL] @
      ''five.txt'' @ [NL] @ ''5'' @ [NL] @ ''a'' @ [NL] @ ''b'' @ [NL] @ ''c'' @ [NL] @ ''d'' @ [NL] @
        ''e'' @ [NL] =
        concat (map (\<lambda>r. fst r @ [NL] @ str_nat (length (snd r)) @ [NL] @ concat (snd r)) recs) \<and>
      sorted (map (\<lambda>r. length (snd r)) recs) \<and>
      mset recs = mset (enumerated_records
        (dir_env ''files''
          [(''five.txt'', ''a'' @ [NL] @ ''b'' @ [NL] @ ''c'' @ [NL] @ ''d'' @ [NL] @ ''e'' @ [NL]),
           (''one.txt'', ''only'' @ [NL]),
           (''three.txt'', ''x'' @ [NL] @ ''y'' @ [NL] @ ''z'' @ [NL])])
        ''files'' [''five.txt'', ''one.txt'', ''three.txt''])"
proof -
  let ?env = "dir_env ''files''
          [(''five.txt'', ''a'' @ [NL] @ ''b'' @ [NL] @ ''c'' @ [NL] @ ''d'' @ [NL] @ ''e'' @ [NL]),
           (''one.txt'', ''only'' @ [NL]),
           (''three.txt'', ''x'' @ [NL] @ ''y'' @ [NL] @ ''z'' @ [NL])]"
  let ?text = "''one.txt'' @ [NL] @ ''1'' @ [NL] @ ''only'' @ [NL] @
      ''three.txt'' @ [NL] @ ''3'' @ [NL] @ ''x'' @ [NL] @ ''y'' @ [NL] @ ''z'' @ [NL] @
      ''five.txt'' @ [NL] @ ''5'' @ [NL] @ ''a'' @ [NL] @ ''b'' @ [NL] @ ''c'' @ [NL] @ ''d'' @ [NL] @
        ''e'' @ [NL]"
  have 1: "os_listdir ?env ''files'' = Inr [''five.txt'', ''one.txt'', ''three.txt'']"
    by (simp add: dir_env_def)
  have 2: "distinct [''five.txt'', ''one.txt'', ''three.txt'']"
    by simp
  have 3: "merge_files ?env ''files'' ''files/merged_file.txt'' = Inr ?text"
    by code_simp
  from merge_sorted_by_line_count [OF 1 2 3] show ?thesis
    by blast
qed

lemma merge_error_kinds:
  "merge_files env d out = Inl e \<Longrightarrow>
     e = FileNotFoundError (DirNotFound d) \<or> (\<exists>t. e = ValueError (MergeFailed (OSText t)))"
  by (auto simp: merge_files_def merge_handler_def Let_def
      split: sum.splits option.splits os_error.splits)

lemma merge_missing_directory:
  "os_listdir env d = Inl ENOENT \<Longrightarrow> merge_files env d out = Inl (FileNotFoundError (DirNotFound d))"
  by (simp add: merge_files_def merge_handler_def)

text \<open>
  Claim C4. The merger raises nothing but \<^verbatim>\<open>FileNotFoundError\<close> and \<^verbatim>\<open>ValueError\<close>, and a
  missing directory gives the former, as the two lemmas above say. The handler of line 101
  however takes every \<^verbatim>\<open>FileNotFoundError\<close> of the body: with the directory present and
  listed, an output path whose parent directory is missing makes the merger report that the
  directory is not found, where the claim has the wrapping error of line 104.
\<close>

theorem merge_reports_directory_for_output_path:
  "os_listdir (dir_env ''files'' [(''a.txt'', ''x'' @ [NL])]) ''files'' = Inr [''a.txt''] \<and>
   merge_files (dir_env ''files'' [(''a.txt'', ''x'' @ [NL])]) ''files'' ''out/merged_file.txt'' =
     Inl (FileNotFoundError (DirNotFound ''files''))"
  by code_simp

section \<open>The aggregator on the store\<close>

lemma ingredient_of_SomeD:
  "ingredient_of d = Some i \<Longrightarrow>
     map_of d ''ingredient_name'' = Some (VStr (ingredient_name i)) \<and>
     map_of d ''quantity'' = Some (VInt (quantity i)) \<and>
     map_of d ''measure'' = Some (VStr (measure' i))"
  by (auto simp: ingredient_of_def split: option.splits pyval.splits)

lemma entry_of_SomeD:
  "entry_of d = Some e \<Longrightarrow>
     map_of d ''measure'' = Some (VStr (entry_measure e)) \<and>
     map_of d ''quantity'' = Some (VInt (entry_quantity e))"
  by (auto simp: entry_of_def split: option.splits pyval.splits)

lemma entry_of_new:
  "entry_of [(''measure'', VStr m), (''quantity'', VInt q)] =
     Some \<lparr>entry_measure = m, entry_quantity = q\<rparr>"
  by (simp add: entry_of_def)

lemma entry_of_update:
  "entry_of d = Some e \<Longrightarrow>
     entry_of (AList.update ''quantity'' (VInt q) d) = Some (e\<lparr>entry_quantity := q\<rparr>)"
  by (auto simp: entry_of_def update_conv' split: option.splits pyval.splits)

lemma shop_list_of_unchanged:
  "e \<notin> snd ` set sl \<Longrightarrow> shop_list_of (h[e := x]) sl = shop_list_of h sl"
  by (induction sl) (auto simp: shop_list_of_def)

lemma shop_list_of_update:
  "distinct (map snd sl) \<Longrightarrow> map_of sl name = Some e \<Longrightarrow> e < length h \<Longrightarrow>
     shop_list_of (h[e := x]) sl = AList.update name (the (entry_of x)) (shop_list_of h sl)"
proof (induction sl)
  case Nil
  then show ?case by simp
next
  case (Cons r sl)
  show ?case
  proof (cases "fst r = name")
    case True
    with Cons.prems have e: "snd r = e" by (cases r) simp
    with Cons.prems have "e \<notin> snd ` set sl" by auto
    from shop_list_of_unchanged [OF this] True e Cons.prems(3) show ?thesis
      by (simp add: shop_list_of_def)
  next
    case False
    with Cons.prems have m: "map_of sl name = Some e" by (cases r) auto
    then have "(name, e) \<in> set sl" by (rule map_of_SomeD)
    then have "e \<in> snd ` set sl" by force
    with Cons.prems(1) have ne: "snd r \<noteq> e" by auto
    from Cons.prems(1) have d: "distinct (map snd sl)" by simp
    have "shop_list_of (h[e := x]) (r # sl) = (fst r, the (entry_of (h ! snd r))) # shop_list_of (h[e := x]) sl"
      using ne by (simp add: shop_list_of_def)
    also have "\<dots> = (fst r, the (entry_of (h ! snd r))) # AList.update name (the (entry_of x)) (shop_list_of h sl)"
      using Cons.IH [OF d m Cons.prems(3)] by simp
    also have "\<dots> = AList.update name (the (entry_of x)) (shop_list_of h (r # sl))"
      using False by (simp add: shop_list_of_def)
    finally show ?thesis .
  qed
qed

lemma shop_list_of_append:
  "\<forall>r \<in> set sl. snd r < length h \<Longrightarrow> shop_list_of (h @ [x]) sl = shop_list_of h sl"
  by (induction sl) (auto simp: shop_list_of_def nth_append)

lemma map_of_shop_list_of:
  "map_of (shop_list_of h sl) n = map_option (\<lambda>a. the (entry_of (h ! a))) (map_of sl n)"
  by (induction sl) (auto simp: shop_list_of_def)

lemma map_of_None_fresh: "map_of al k = None \<Longrightarrow> k \<notin> fst ` set al"
  by (simp add: map_of_eq_None_iff)

lemma add_ingredient_h_step:
  assumes inv: "entries_fresh h0 (sl, h)"
    and a: "a < length h0" and i: "ingredient_of (h0 ! a) = Some ing"
  shows "\<exists>sl' h'. add_ingredient_h pc (sl, h) a = Some (sl', h') \<and>
           entries_fresh h0 (sl', h') \<and>
           shop_list_of h' sl' = add_ingredient pc (shop_list_of h sl) ing"
proof -
  from inv have len: "length h0 \<le> length h" and tk: "take (length h0) h = h0"
    and dist: "distinct (map snd sl)"
    and ents: "\<forall>r \<in> set sl. length h0 \<le> snd r \<and> snd r < length h \<and> entry_of (h ! snd r) \<noteq> None"
    by (auto simp: entries_fresh_def list_all_iff)
  from a tk have ha: "h ! a = h0 ! a"
    by (metis nth_take)
  from a len have al: "\<not> length h \<le> a" by simp
  note keys = ingredient_of_SomeD [OF i]
  show ?thesis
  proof (cases "map_of sl (ingredient_name ing)")
    case None
    let ?new = "[(''measure'', VStr (measure' ing)), (''quantity'', VInt (quantity ing * pc))]"
    let ?sl' = "AList.update (ingredient_name ing) (length h) sl"
    from None have fresh: "ingredient_name ing \<notin> fst ` set sl" by (rule map_of_None_fresh)
    then have u: "?sl' = sl @ [(ingredient_name ing, length h)]" by (rule update_fresh)
    from None al keys have r: "add_ingredient_h pc (sl, h) a = Some (?sl', h @ [?new])"
      by (simp add: add_ingredient_h_def ha)
    from ents have lt: "\<forall>r \<in> set sl. snd r < length h" by blast
    then have "length h \<notin> snd ` set sl" by auto
    with dist len tk ents have "entries_fresh h0 (?sl', h @ [?new])"
      unfolding u by (auto simp: entries_fresh_def list_all_iff nth_append entry_of_new)
    moreover have "shop_list_of (h @ [?new]) ?sl' = add_ingredient pc (shop_list_of h sl) ing"
    proof -
      have "map_of (shop_list_of h sl) (ingredient_name ing) = None"
        using None by (simp add: map_of_shop_list_of)
      moreover from this have "ingredient_name ing \<notin> fst ` set (shop_list_of h sl)"
        by (rule map_of_None_fresh)
      ultimately have "add_ingredient pc (shop_list_of h sl) ing =
          shop_list_of h sl @ [(ingredient_name ing,
            \<lparr>entry_measure = measure' ing, entry_quantity = quantity ing * pc\<rparr>)]"
        by (simp add: add_ingredient_def Let_def update_fresh)
      moreover have "shop_list_of (h @ [?new]) ?sl' =
          shop_list_of h sl @ [(ingredient_name ing, the (entry_of ?new))]"
        unfolding u using shop_list_of_append [OF lt, of ?new]
        by (simp add: shop_list_of_def)
      ultimately show ?thesis by (simp add: entry_of_new)
    qed
    ultimately show ?thesis using r by blast
  next
    case (Some e)
    then have "(ingredient_name ing, e) \<in> set sl" by (rule map_of_SomeD)
    with ents obtain e0 where lo: "length h0 \<le> e" and hi: "e < length h"
      and e0: "entry_of (h ! e) = Some e0"
      by fastforce
    let ?x = "AList.update ''quantity'' (VInt (entry_quantity e0 + quantity ing * pc)) (h ! e)"
    from Some al keys hi entry_of_SomeD [OF e0]
    have r: "add_ingredient_h pc (sl, h) a = Some (sl, h[e := ?x])"
      by (simp add: add_ingredient_h_def ha)
    have x: "entry_of ?x = Some (e0\<lparr>entry_quantity := entry_quantity e0 + quantity ing * pc\<rparr>)"
      by (rule entry_of_update [OF e0])
    have "entry_of (h[e := ?x] ! b) \<noteq> None" if "(n, b) \<in> set sl" for n b
    proof (cases "b = e")
      case True
      with hi x show ?thesis by simp
    next
      case False
      with that ents show ?thesis by force
    qed
    with len tk dist ents lo have "entries_fresh h0 (sl, h[e := ?x])"
      by (auto simp: entries_fresh_def list_all_iff)
    moreover have "shop_list_of (h[e := ?x]) sl = add_ingredient pc (shop_list_of h sl) ing"
    proof -
      have "map_of (shop_list_of h sl) (ingredient_name ing) = Some e0"
        using Some e0 by (simp add: map_of_shop_list_of)
      then have "add_ingredient pc (shop_list_of h sl) ing =
          AList.update (ingredient_name ing)
            (e0\<lparr>entry_quantity := entry_quantity e0 + quantity ing * pc\<rparr>) (shop_list_of h sl)"
        by (simp add: add_ingredient_def Let_def)
      with shop_list_of_update [OF dist Some hi, of ?x] x show ?thesis by simp
    qed
    ultimately show ?thesis using r by blast
  qed
qed

lemma add_all_h_run:
  assumes "entries_fresh h0 (sl, h)"
    and "\<forall>a \<in> set as. a < length h0 \<and> ingredient_of (h0 ! a) \<noteq> None"
  shows "\<exists>sl' h'. add_all_h pc as (sl, h) = Some (sl', h') \<and>
           entries_fresh h0 (sl', h') \<and>
           shop_list_of h' sl' =
             foldl (add_ingredient pc) (shop_list_of h sl)
               (map (\<lambda>a. the (ingredient_of (h0 ! a))) as)"
  using assms
proof (induction as arbitrary: sl h)
  case Nil
  then show ?case by simp
next
  case (Cons a as)
  from Cons.prems(2) obtain ing where a: "a < length h0" and i: "ingredient_of (h0 ! a) = Some ing"
    by auto
  from add_ingredient_h_step [OF Cons.prems(1) a i, of pc] obtain sl1 h1 where
    s: "add_ingredient_h pc (sl, h) a = Some (sl1, h1)" and f: "entries_fresh h0 (sl1, h1)"
    and l: "shop_list_of h1 sl1 = add_ingredient pc (shop_list_of h sl) ing"
    by blast
  from Cons.prems(2) have "\<forall>a \<in> set as. a < length h0 \<and> ingredient_of (h0 ! a) \<noteq> None"
    by simp
  from Cons.IH [OF f this] s l i show ?case by simp
qed

lemma map_of_catalog_of:
  "map_of (catalog_of h cb) d =
     map_option (map (\<lambda>a. the (ingredient_of (h ! a)))) (map_of cb d)"
  by (induction cb) (auto simp: catalog_of_def)

lemma wf_catalog_lookup:
  "wf_catalog h cb \<Longrightarrow> map_of cb d = Some as \<Longrightarrow>
     \<forall>a \<in> set as. a < length h \<and> ingredient_of (h ! a) \<noteq> None"
  by (force simp: wf_catalog_def list_all_iff dest: map_of_SomeD)

lemma shop_loop_h_run:
  assumes "wf_catalog h0 cb" and "entries_fresh h0 (sl, h)"
  shows "\<exists>out' sl' h'. shop_loop_h dishes pc cb out (sl, h) = Some (out', sl', h') \<and>
           entries_fresh h0 (sl', h') \<and>
           (out', shop_list_of h' sl') =
             shop_loop dishes pc (catalog_of h0 cb) (out, shop_list_of h sl)"
  using assms(2)
proof (induction dishes arbitrary: out sl h)
  case Nil
  then show ?case by simp
next
  case (Cons d dishes)
  show ?case
  proof (cases "map_of cb d")
    case None
    with Cons.IH [OF Cons.prems, of "out @ [DishNotFound d]"] show ?thesis
      by (simp add: map_of_catalog_of)
  next
    case (Some as)
    from add_all_h_run [OF Cons.prems wf_catalog_lookup [OF assms(1) Some], of pc]
    obtain sl1 h1 where s: "add_all_h pc as (sl, h) = Some (sl1, h1)"
      and f: "entries_fresh h0 (sl1, h1)"
      and l: "shop_list_of h1 sl1 =
             foldl (add_ingredient pc) (shop_list_of h sl)
               (map (\<lambda>a. the (ingredient_of (h0 ! a))) as)"
      by blast
    from Cons.IH [OF f, of out] Some s l show ?thesis
      by (simp add: map_of_catalog_of)
  qed
qed

lemma entries_fresh_start: "entries_fresh h ([], h)"
  by (simp add: entries_fresh_def)

lemma store_run_refines:
  assumes "wf_catalog h cb"
  shows "\<exists>out sl h'. get_shop_list_by_dishes_h dishes pc cb h = Some (out, sl, h') \<and>
           entries_fresh h (sl, h') \<and>
           (out, shop_list_of h' sl) = get_shop_list_by_dishes dishes pc (catalog_of h cb)"
  using shop_loop_h_run [OF assms entries_fresh_start, of dishes pc "[]"]
  by (simp add: get_shop_list_by_dishes_h_def get_shop_list_by_dishes_def shop_list_of_def)

lemma catalog_of_frame:
  assumes "wf_catalog h cb" and "length h \<le> length h'" and "take (length h) h' = h"
  shows "catalog_of h' cb = catalog_of h cb"
proof -
  have "h' ! a = h ! a" if "a < length h" for a
    using that assms(3) by (metis nth_take)
  with assms(1) show ?thesis
    by (auto simp: catalog_of_def wf_catalog_def list_all_iff)
qed

text \<open>
  Claim C9. On a store in which every address of the catalog holds an ingredient, the
  aggregator returns, and the dictionaries that were in the store at the call are the same
  afterwards: the catalog reads as before. The entries of the shopping list are dictionaries
  allocated during the call, none of them one of the catalog's.
\<close>

theorem catalog_is_not_mutated:
  assumes "wf_catalog h cb"
  shows "\<exists>out sl h'. get_shop_list_by_dishes_h dishes pc cb h = Some (out, sl, h') \<and>
           take (length h) h' = h \<and>
           catalog_of h' cb = catalog_of h cb \<and>
           list_all (\<lambda>r. length h \<le> snd r) sl"
proof -
  from store_run_refines [OF assms, of dishes pc] obtain out sl h' where
    r: "get_shop_list_by_dishes_h dishes pc cb h = Some (out, sl, h')"
    and f: "entries_fresh h (sl, h')"
    by blast
  from f have 1: "length h \<le> length h'" and 2: "take (length h) h' = h"
    and 3: "list_all (\<lambda>r. length h \<le> snd r) sl"
    by (auto simp: entries_fresh_def list_all_iff)
  from catalog_of_frame [OF assms 1 2] r 2 3 show ?thesis by blast
qed

theorem catalog_is_not_mutated_witness:
  "\<exists>out sl h'.
     get_shop_list_by_dishes_h [''A'', ''C'', ''A''] 2 [(''A'', [0, 1, 0])]
       [ [(''ingredient_name'', VStr ''salt''), (''quantity'', VInt 2), (''measure'', VStr ''g'')],
        [(''ingredient_name'', VStr ''egg''), (''quantity'', VInt 1), (''measure'', VStr ''pc'')]]
       = Some (out, sl, h') \<and>
     take 2 h' =
       [ [(''ingredient_name'', VStr ''salt''), (''quantity'', VInt 2), (''measure'', VStr ''g'')],
        [(''ingredient_name'', VStr ''egg''), (''quantity'', VInt 1), (''measure'', VStr ''pc'')]]"
proof -
  let ?h = "[ [(''ingredient_name'', VStr ''salt''), (''quantity'', VInt 2), (''measure'', VStr ''g'')],
        [(''ingredient_name'', VStr ''egg''), (''quantity'', VInt 1), (''measure'', VStr ''pc'')]]"
  have 1: "wf_catalog ?h [(''A'', [0, 1, 0])]"
    by (simp add: wf_catalog_def ingredient_of_def)
  have 2: "length ?h = 2" by simp
  from catalog_is_not_mutated [OF 1, of "[''A'', ''C'', ''A'']" 2] show ?thesis
    unfolding 2 by blast
qed

end
